theory Spec2Isabelle
  imports Main
begin

section \<open>The sequential demo runner of claudeCodeDemo.py and simpleClaudeDemo.py\<close>

text \<open>
  Both scripts end in the same runner: \<open>run_all_demos\<close> prepares the environment, walks a
  list of (name, demo function) pairs, awaits each demo inside \<open>try ... except Exception\<close>,
  counts the demos that returned a true value and prints one summary line; \<open>main\<close> runs
  it under \<open>asyncio.run\<close> and catches \<open>KeyboardInterrupt\<close> and \<open>Exception\<close>.

  The model makes the effects explicit. Everything written to standard output is an
  event of a log, in order; an extra event records each call of a demo function, so that
  "called once, in order" can be stated. What an awaited demo does is a value: the lines
  it prints and how it settles.
\<close>

subsection \<open>Data\<close>

text \<open>
  How an awaited demo function ends: it returns a value tested by \<open>if result\<close>, it raises
  an \<open>Exception\<close> (kept as the text \<open>str(e)\<close>), or the run is interrupted while it is
  awaited (\<open>KeyboardInterrupt\<close>, a \<open>BaseException\<close> that \<open>except Exception\<close> does not
  catch).
\<close>

datatype outcome = Returned bool | Raised string | Interrupted

record demo_func =
  prints :: "string list"
  outcome :: outcome

datatype event = Invoke string | OpPrint string | Print string

datatype fault = KeyboardInterrupt | Exception string

text \<open>The environment read by the setup code.\<close>

datatype sdk_status = SdkAvailable | SdkInstallable | SdkInstallFails string

datatype cli_status = CliInstalled | CliNonZero | CliNotFound | CliFault string

record env =
  sdk :: sdk_status
  api_key :: "string option"
  cli :: cli_status

text \<open>
  What a demo function meets: \<open>import anthropic\<close> fails, the API call answers with a
  text, anything inside the \<open>try\<close> raises an \<open>Exception\<close>, or the run is interrupted
  during the call.
\<close>

datatype api_result = ImportFailed string | Replied string | Failed string | Aborted

subsection \<open>Text\<close>

text \<open>The non-ASCII marks of the source, as their UTF-8 bytes.\<close>

definition cross_mark :: string where
  "cross_mark = [CHR 0xE2, CHR 0x9D, CHR 0x8C]"

definition check_mark :: string where
  "check_mark = [CHR 0xE2, CHR 0x9C, CHR 0x93]"

definition info_mark :: string where
  "info_mark = [CHR 0xE2, CHR 0x84, CHR 0xB9, CHR 0xEF, CHR 0xB8, CHR 0x8F]"

definition newline :: string where
  "newline = [CHR 0x0A]"

text \<open>\<open>"=" * 50\<close>\<close>

definition rule50 :: string where
  "rule50 = replicate 50 (CHR ''='')"

text \<open>\<open>str(n)\<close> for a count: decimal digits, no sign, no leading zero.\<close>

fun str_nat :: "nat \<Rightarrow> string" where
  "str_nat n =
     (if n < 10 then [''0123456789'' ! n]
      else str_nat (n div 10) @ [''0123456789'' ! (n mod 10)])"

declare str_nat.simps [simp del]

text \<open>\<open>f"Completed {successful}/{len(demos)} demos successfully!"\<close>\<close>

definition summary_line :: "nat \<Rightarrow> nat \<Rightarrow> string" where
  "summary_line successful n =
     ''Completed '' @ str_nat successful @ ''/'' @ str_nat n @ '' demos successfully!''"

text \<open>\<open>f"<cross mark> {name} demo failed: {e}"\<close>\<close>

definition failed_line :: "string \<Rightarrow> string \<Rightarrow> string" where
  "failed_line name e = cross_mark @ '' '' @ name @ '' demo failed: '' @ e"

subsection \<open>Setup code\<close>

text \<open>
  Each function takes the log so far and returns the log and either the fault that left
  the function or its return value.
\<close>

definition install_requirements :: "env \<Rightarrow> event list \<Rightarrow> event list \<times> (fault + unit)" where
  "install_requirements ev lg =
     (case sdk ev of
        SdkAvailable \<Rightarrow> (lg @ [Print (check_mark @ '' Anthropic SDK available'')], Inr ())
      | SdkInstallable \<Rightarrow>
          (lg @ [Print ''Installing Anthropic SDK...'',
                 Print (check_mark @ '' Anthropic SDK installed'')], Inr ())
      | SdkInstallFails e \<Rightarrow> (lg @ [Print ''Installing Anthropic SDK...''], Inl (Exception e)))"

text \<open>
  \<open>setup_api_key\<close>; \<open>if api_key:\<close> is false for \<open>None\<close> and for the empty string.
  The two scripts differ in the path of the last message only, here \<open>env_path\<close>.
\<close>

definition setup_api_key :: "string \<Rightarrow> env \<Rightarrow> event list \<Rightarrow> event list \<times> bool" where
  "setup_api_key env_path ev lg =
     (if api_key ev \<noteq> None \<and> api_key ev \<noteq> Some []
      then (lg @ [Print (check_mark @ '' API key configured from .env file'')], True)
      else (lg @ [Print (cross_mark @ '' No API key found in .env file''),
                  Print (''Please set ANTHROPIC_API_KEY in '' @ env_path)], False))"

definition check_claude_cli :: "env \<Rightarrow> event list \<Rightarrow> event list \<times> (fault + bool)" where
  "check_claude_cli ev lg =
     (case cli ev of
        CliInstalled \<Rightarrow> (lg @ [Print (check_mark @ '' Claude CLI is installed'')], Inr True)
      | CliNonZero \<Rightarrow> (lg @ [Print (info_mark @ '' Claude CLI not found (optional)'')], Inr True)
      | CliNotFound \<Rightarrow>
          (lg @ [Print (info_mark @ '' Claude CLI not found (optional)''),
                 Print ''Install with: npm install -g @anthropic-ai/claude-code''], Inr True)
      | CliFault e \<Rightarrow> (lg, Inl (Exception e)))"

subsection \<open>A demo function\<close>

text \<open>
  \<open>demo_hello_world\<close> of claudeCodeDemo.py: the banner, the import (outside the
  \<open>try\<close>), then the API call inside \<open>try ... except Exception\<close>; the handler prints
  the error and returns \<open>False\<close>.
\<close>

definition demo_hello_world :: "api_result \<Rightarrow> demo_func" where
  "demo_hello_world r =
     (case r of
        ImportFailed e \<Rightarrow>
          \<lparr>prints = [newline @ ''=== Demo 1: Hello World ===''], outcome = Raised e\<rparr>
      | Replied text \<Rightarrow>
          \<lparr>prints = [newline @ ''=== Demo 1: Hello World ==='', ''Claude: '' @ text],
           outcome = Returned True\<rparr>
      | Failed e \<Rightarrow>
          \<lparr>prints = [newline @ ''=== Demo 1: Hello World ==='', cross_mark @ '' Error: '' @ e],
           outcome = Returned False\<rparr>
      | Aborted \<Rightarrow>
          \<lparr>prints = [newline @ ''=== Demo 1: Hello World ===''], outcome = Interrupted\<rparr>)"

subsection \<open>The runner\<close>

text \<open>
  The \<open>for\<close> loop of \<open>run_all_demos\<close> (claudeCodeDemo.py 259-266, simpleClaudeDemo.py
  168-175), with the counter \<open>successful\<close> and the log as accumulators.
\<close>

fun run_loop :: "(string \<times> demo_func) list \<Rightarrow> nat \<Rightarrow> event list \<Rightarrow> event list \<times> (fault + nat)" where
  "run_loop [] successful lg = (lg, Inr successful)"
| "run_loop ((name, f) # rest) successful lg =
     (let lg1 = lg @ Invoke name # map OpPrint (prints f) in
      case outcome f of
        Returned result \<Rightarrow> run_loop rest (if result then successful + 1 else successful) lg1
      | Raised e \<Rightarrow> run_loop rest successful (lg1 @ [Print (failed_line name e)])
      | Interrupted \<Rightarrow> (lg1, Inl KeyboardInterrupt))"

text \<open>
  From \<open>successful = 0\<close> to the last \<open>print\<close> (claudeCodeDemo.py 259-269,
  simpleClaudeDemo.py 168-178).
\<close>

definition run_batch :: "(string \<times> demo_func) list \<Rightarrow> event list \<Rightarrow> event list \<times> (fault + unit)" where
  "run_batch demos lg =
     (case run_loop demos 0 lg of
        (lg1, Inl x) \<Rightarrow> (lg1, Inl x)
      | (lg1, Inr successful) \<Rightarrow>
          (lg1 @ [Print (newline @ rule50), Print (summary_line successful (length demos))],
           Inr ()))"

text \<open>The \<open>demos\<close> lists of the two scripts, over what each demo function does.\<close>

definition demos :: "demo_func \<Rightarrow> demo_func \<Rightarrow> demo_func \<Rightarrow> demo_func \<Rightarrow> demo_func \<Rightarrow> demo_func
    \<Rightarrow> (string \<times> demo_func) list" where
  "demos hello_world code_generation code_review debugging_help multi_turn error_handling =
     [(''Hello World'', hello_world),
      (''Code Generation'', code_generation),
      (''Code Review'', code_review),
      (''Debugging Help'', debugging_help),
      (''Multi-turn'', multi_turn),
      (''Error Handling'', error_handling)]"

definition simple_demos :: "demo_func \<Rightarrow> demo_func \<Rightarrow> demo_func \<Rightarrow> demo_func
    \<Rightarrow> (string \<times> demo_func) list" where
  "simple_demos hello_world code_generation code_review debugging_help =
     [(''Hello World'', hello_world),
      (''Code Generation'', code_generation),
      (''Code Review'', code_review),
      (''Debugging Help'', debugging_help)]"

text \<open>
  \<open>run_all_demos\<close> of claudeCodeDemo.py, with the list of demos as a parameter (the
  source binds it to \<open>demos\<close> above).
\<close>

definition run_all_demos :: "env \<Rightarrow> (string \<times> demo_func) list \<Rightarrow> event list \<times> (fault + unit)" where
  "run_all_demos ev ds =
     (let lg = [Print ''Claude API Demo Starting...'', Print rule50] in
      case install_requirements ev lg of
        (lg1, Inl x) \<Rightarrow> (lg1, Inl x)
      | (lg1, Inr _) \<Rightarrow>
          (case setup_api_key ''ib_invoice_ops/.env'' ev lg1 of
             (lg2, False) \<Rightarrow> (lg2, Inr ())
           | (lg2, True) \<Rightarrow>
               (case check_claude_cli ev lg2 of
                  (lg3, Inl x) \<Rightarrow> (lg3, Inl x)
                | (lg3, Inr _) \<Rightarrow> run_batch ds lg3)))"

text \<open>
  \<open>run_all_demos\<close> of simpleClaudeDemo.py: the key first, then the SDK (the body of
  \<open>install_requirements\<close>, written in place), no CLI check.
\<close>

definition simple_run_all_demos :: "env \<Rightarrow> (string \<times> demo_func) list \<Rightarrow> event list \<times> (fault + unit)" where
  "simple_run_all_demos ev ds =
     (let lg = [Print ''Simple Claude API Demo Starting...'', Print rule50] in
      case setup_api_key ''.env'' ev lg of
        (lg1, False) \<Rightarrow> (lg1, Inr ())
      | (lg1, True) \<Rightarrow>
          (case install_requirements ev lg1 of
             (lg2, Inl x) \<Rightarrow> (lg2, Inl x)
           | (lg2, Inr _) \<Rightarrow> run_batch ds lg2))"

text \<open>
  \<open>main\<close> (the same in both scripts), over the result of \<open>asyncio.run(run_all_demos())\<close>:
  it returns the final log. \<open>main\<close> and \<open>simple_main\<close> below are the runs in which an
  interrupt, if any, arrives while a demo is awaited; the next subsection has the others.
\<close>

definition main_of :: "event list \<times> (fault + unit) \<Rightarrow> event list" where
  "main_of r =
     (case r of
        (lg, Inr _) \<Rightarrow> lg
      | (lg, Inl KeyboardInterrupt) \<Rightarrow> lg @ [Print (newline @ newline @ ''Demo interrupted by user'')]
      | (lg, Inl (Exception e)) \<Rightarrow> lg @ [Print (newline @ ''Demo failed: '' @ e)])"

definition main :: "env \<Rightarrow> (string \<times> demo_func) list \<Rightarrow> event list" where
  "main ev ds = main_of (run_all_demos ev ds)"

definition simple_main :: "env \<Rightarrow> (string \<times> demo_func) list \<Rightarrow> event list" where
  "simple_main ev ds = main_of (simple_run_all_demos ev ds)"

subsection \<open>An interrupt that arrives outside an await\<close>

text \<open>
  From Python 3.11 on, \<open>asyncio.run\<close> installs its own handler for the interrupt signal:
  the handler raises nothing, it cancels the task that runs \<open>run_all_demos\<close>. When the
  signal arrives while the task is suspended in an await, the awaited call is cancelled at
  once: this is the outcome \<open>Interrupted\<close> above. When it arrives while the task runs code
  between awaits, the cancellation stays pending: it is raised at the next await that
  suspends, and a coroutine that ends before any such await is marked cancelled as it
  stops, after everything it printed. Either way \<open>asyncio.run\<close> then raises
  \<open>KeyboardInterrupt\<close> into \<open>main\<close>.

  For this a demo also tells where it first suspends: after how many of its printed lines,
  or not at all (a demo whose call fails before it is sent never suspends).
\<close>

record awaiting_demo = demo_func +
  await_at :: "nat option"

text \<open>A demo without that information.\<close>

fun plain :: "string \<times> awaiting_demo \<Rightarrow> string \<times> demo_func" where
  "plain (name, f) = (name, \<lparr>prints = prints f, outcome = outcome f\<rparr>)"

text \<open>
  The loop again, with the pending cancellation as a flag. \<open>sigint = Some k\<close>: the signal
  arrives while the demo k places further on runs its last stretch of code, after its last
  await; \<open>None\<close>: no such signal. A demo that starts with the cancellation pending runs up
  to its first await and is cancelled there; if it never suspends it runs to its end.  The
  result carries the flag as it stands when the loop is left.
\<close>

fun deferred_loop :: "nat option \<Rightarrow> bool \<Rightarrow> (string \<times> awaiting_demo) list \<Rightarrow> nat \<Rightarrow> event list
    \<Rightarrow> event list \<times> (fault + nat \<times> bool)" where
  "deferred_loop sigint pending [] successful lg = (lg, Inr (successful, pending))"
| "deferred_loop sigint pending ((name, f) # rest) successful lg =
     (case (if pending then await_at f else None) of
        Some n \<Rightarrow> (lg @ Invoke name # map OpPrint (take n (prints f)), Inl KeyboardInterrupt)
      | None \<Rightarrow>
          (let lg1 = lg @ Invoke name # map OpPrint (prints f);
               pending1 = (pending \<or> sigint = Some 0);
               sigint1 = (case sigint of Some (Suc k) \<Rightarrow> Some k | _ \<Rightarrow> None)
           in case outcome f of
                Returned result \<Rightarrow>
                  deferred_loop sigint1 pending1 rest
                    (if result then successful + 1 else successful) lg1
              | Raised e \<Rightarrow>
                  deferred_loop sigint1 pending1 rest successful
                    (lg1 @ [Print (failed_line name e)])
              | Interrupted \<Rightarrow> (lg1, Inl KeyboardInterrupt)))"

text \<open>The loop and the two last prints; the result is the flag.\<close>

definition deferred_batch :: "nat option \<Rightarrow> (string \<times> awaiting_demo) list \<Rightarrow> event list
    \<Rightarrow> event list \<times> (fault + bool)" where
  "deferred_batch sigint ds lg =
     (case deferred_loop sigint False ds 0 lg of
        (lg1, Inl x) \<Rightarrow> (lg1, Inl x)
      | (lg1, Inr (successful, pending)) \<Rightarrow>
          (lg1 @ [Print (newline @ rule50), Print (summary_line successful (length ds))],
           Inr pending))"

text \<open>
  \<open>asyncio.run\<close> around a coroutine that has ended: with a cancellation still pending it
  raises \<open>KeyboardInterrupt\<close>; an exception of the coroutine goes through as it is.
\<close>

definition asyncio_run :: "event list \<times> (fault + bool) \<Rightarrow> event list \<times> (fault + unit)" where
  "asyncio_run r =
     (case r of
        (lg, Inl x) \<Rightarrow> (lg, Inl x)
      | (lg, Inr pending) \<Rightarrow> if pending then (lg, Inl KeyboardInterrupt) else (lg, Inr ()))"

subsection \<open>Reading a log\<close>

text \<open>The names of the demos called, in order.\<close>

fun invoked :: "event list \<Rightarrow> string list" where
  "invoked [] = []"
| "invoked (Invoke n # es) = n # invoked es"
| "invoked (_ # es) = invoked es"

text \<open>The lines printed by the runner itself, in order.\<close>

fun printed :: "event list \<Rightarrow> string list" where
  "printed [] = []"
| "printed (Print l # es) = l # printed es"
| "printed (_ # es) = printed es"

text \<open>A line that starts like the summary.\<close>

definition is_summary :: "string \<Rightarrow> bool" where
  "is_summary l = (take 10 l = ''Completed '')"

text \<open>How a demo counts: one for a true return value, nothing otherwise.\<close>

fun succeeded :: "demo_func \<Rightarrow> bool" where
  "succeeded f = (case outcome f of Returned result \<Rightarrow> result | _ \<Rightarrow> False)"

fun interrupted :: "string \<times> demo_func \<Rightarrow> bool" where
  "interrupted (name, f) = (outcome f = Interrupted)"

text \<open>The diagnostics the runner owes: one per demo that raised, in order.\<close>

fun diagnostics :: "(string \<times> demo_func) list \<Rightarrow> string list" where
  "diagnostics [] = []"
| "diagnostics ((name, f) # rest) =
     (case outcome f of Raised e \<Rightarrow> failed_line name e # diagnostics rest
      | _ \<Rightarrow> diagnostics rest)"

text \<open>
  The events of a batch in which no demo is interrupted: for each demo the call, the
  lines it prints, and the runner's diagnostic if it raised.
\<close>

fun trace :: "(string \<times> demo_func) list \<Rightarrow> event list" where
  "trace [] = []"
| "trace ((name, f) # rest) =
     Invoke name # map OpPrint (prints f)
       @ (case outcome f of Raised e \<Rightarrow> [Print (failed_line name e)] | _ \<Rightarrow> [])
       @ trace rest"

text \<open>The number of demos of a list that succeeded.\<close>

fun tally :: "(string \<times> demo_func) list \<Rightarrow> nat" where
  "tally [] = 0"
| "tally ((name, f) # rest) = (if succeeded f then 1 else 0) + tally rest"

text \<open>The environments in which the setup code reaches the demos.\<close>

fun sdk_ok :: "sdk_status \<Rightarrow> bool" where
  "sdk_ok (SdkInstallFails e) = False"
| "sdk_ok _ = True"

fun cli_ok :: "cli_status \<Rightarrow> bool" where
  "cli_ok (CliFault e) = False"
| "cli_ok _ = True"

fun key_ok :: "string option \<Rightarrow> bool" where
  "key_ok None = False"
| "key_ok (Some k) = (k \<noteq> [])"

definition ready :: "env \<Rightarrow> bool" where
  "ready ev = (sdk_ok (sdk ev) \<and> key_ok (api_key ev) \<and> cli_ok (cli ev))"

definition simple_ready :: "env \<Rightarrow> bool" where
  "simple_ready ev = (key_ok (api_key ev) \<and> sdk_ok (sdk ev))"

definition interrupt_notice :: string where
  "interrupt_notice = newline @ newline @ ''Demo interrupted by user''"

text \<open>Whether a printed line contains a name.\<close>

fun starts_with :: "string \<Rightarrow> string \<Rightarrow> bool" where
  "starts_with l [] = True"
| "starts_with [] (c # cs) = False"
| "starts_with (x # xs) (c # cs) = (x = c \<and> starts_with xs cs)"

fun mentions :: "string \<Rightarrow> string \<Rightarrow> bool" where
  "mentions [] name = starts_with [] name"
| "mentions (x # xs) name = (starts_with (x # xs) name \<or> mentions xs name)"

subsection \<open>Sample batches\<close>

text \<open>
  The batch of four of the specification's scenario, over what the demos print and how
  the second one ends.
\<close>

definition scenario :: "string list \<Rightarrow> string list \<Rightarrow> string list \<Rightarrow> string list \<Rightarrow> outcome
    \<Rightarrow> (string \<times> demo_func) list" where
  "scenario pa pb pc pd b =
     [(''A'', \<lparr>prints = pa, outcome = Returned True\<rparr>),
      (''B'', \<lparr>prints = pb, outcome = b\<rparr>),
      (''C'', \<lparr>prints = pc, outcome = Returned False\<rparr>),
      (''D'', \<lparr>prints = pd, outcome = Returned True\<rparr>)]"


text \<open>
  Four demos: the first returns \<open>True\<close>, the second raises, the third returns \<open>False\<close>
  after printing its own error line, the fourth returns \<open>True\<close>.
\<close>

definition mixed_batch :: "(string \<times> demo_func) list" where
  "mixed_batch =
     [(''A'', \<lparr>prints = [''a''], outcome = Returned True\<rparr>),
      (''B'', \<lparr>prints = [], outcome = Raised ''boom''\<rparr>),
      (''C'', \<lparr>prints = [cross_mark @ '' Error: timeout''], outcome = Returned False\<rparr>),
      (''D'', \<lparr>prints = [''d''], outcome = Returned True\<rparr>)]"

definition passing_batch :: "(string \<times> demo_func) list" where
  "passing_batch =
     [(''A'', \<lparr>prints = [''a''], outcome = Returned True\<rparr>),
      (''B'', \<lparr>prints = [], outcome = Returned True\<rparr>)]"

definition failing_batch :: "(string \<times> demo_func) list" where
  "failing_batch =
     [(''A'', \<lparr>prints = [], outcome = Returned False\<rparr>),
      (''B'', \<lparr>prints = [], outcome = Raised ''boom''\<rparr>)]"

text \<open>Five demos, the run interrupted while the third is awaited.\<close>

definition interrupted_batch :: "(string \<times> demo_func) list" where
  "interrupted_batch =
     [(''A'', \<lparr>prints = [], outcome = Returned True\<rparr>),
      (''B'', \<lparr>prints = [], outcome = Raised ''boom''\<rparr>),
      (''C'', \<lparr>prints = [''c''], outcome = Interrupted\<rparr>),
      (''D'', \<lparr>prints = [], outcome = Returned True\<rparr>),
      (''E'', \<lparr>prints = [], outcome = Returned True\<rparr>)]"

text \<open>
  Five demos; the signal arrives while the second prints its answer, and the third
  suspends after its banner. Two demos; the signal arrives while the last prints its
  answer.
\<close>

definition late_five :: "(string \<times> awaiting_demo) list" where
  "late_five =
     [(''A'', \<lparr>prints = [''a''], outcome = Returned True, await_at = Some 0\<rparr>),
      (''B'', \<lparr>prints = [''b''], outcome = Returned True, await_at = Some 0\<rparr>),
      (''C'', \<lparr>prints = [''banner c'', ''c''], outcome = Returned True, await_at = Some 1\<rparr>),
      (''D'', \<lparr>prints = [''d''], outcome = Returned True, await_at = Some 0\<rparr>),
      (''E'', \<lparr>prints = [''e''], outcome = Returned True, await_at = Some 0\<rparr>)]"

definition late_two :: "(string \<times> awaiting_demo) list" where
  "late_two =
     [(''A'', \<lparr>prints = [''a''], outcome = Returned True, await_at = Some 0\<rparr>),
      (''B'', \<lparr>prints = [''b''], outcome = Returned True, await_at = Some 0\<rparr>)]"

definition ready_env :: env where
  "ready_env = \<lparr>sdk = SdkAvailable, api_key = Some ''sk-test'', cli = CliNotFound\<rparr>"

definition keyless_env :: env where
  "keyless_env = \<lparr>sdk = SdkAvailable, api_key = None, cli = CliInstalled\<rparr>"

section \<open>Properties\<close>

subsection \<open>Logs\<close>

lemma invoked_append: "invoked (xs @ ys) = invoked xs @ invoked ys"
  by (induction xs rule: invoked.induct) simp_all

lemma printed_append: "printed (xs @ ys) = printed xs @ printed ys"
  by (induction xs rule: printed.induct) simp_all

lemma invoked_OpPrint: "invoked (map OpPrint ls) = []"
  by (induction ls) simp_all

lemma printed_OpPrint: "printed (map OpPrint ls) = []"
  by (induction ls) simp_all

lemma invoked_trace: "invoked (trace ds) = map fst ds"
  by (induction ds rule: trace.induct)
    (simp_all add: invoked_append invoked_OpPrint split: outcome.split)

lemma printed_trace: "printed (trace ds) = diagnostics ds"
  by (induction ds rule: trace.induct)
    (simp_all add: printed_append printed_OpPrint split: outcome.split)

lemma trace_append: "trace (xs @ ys) = trace xs @ trace ys"
  by (induction xs rule: trace.induct) simp_all

lemma diagnostics_append: "diagnostics (xs @ ys) = diagnostics xs @ diagnostics ys"
  by (induction xs rule: diagnostics.induct) (simp_all split: outcome.split)

lemma tally_append: "tally (xs @ ys) = tally xs + tally ys"
  by (induction xs rule: tally.induct) simp_all

lemma tally_le: "tally ds \<le> length ds"
  by (induction ds rule: tally.induct) simp_all

lemma tally_all_true:
  "\<forall>d\<in>set ds. outcome (snd d) = Returned True \<Longrightarrow> tally ds = length ds"
  by (induction ds rule: tally.induct) simp_all

lemma tally_none:
  "\<forall>d\<in>set ds. \<not> succeeded (snd d) \<Longrightarrow> tally ds = 0"
  by (induction ds rule: tally.induct) simp_all

subsection \<open>Summary text\<close>

lemma rule50_head: "rule50 = CHR ''='' # replicate 49 (CHR ''='')"
  by (simp add: rule50_def eval_nat_numeral)

lemma not_summary_failed: "\<not> is_summary (failed_line name e)"
  by (simp add: is_summary_def failed_line_def cross_mark_def)

lemma not_summary_rule: "\<not> is_summary (newline @ rule50)"
  by (simp add: is_summary_def newline_def)

lemma not_summary_notice: "\<not> is_summary interrupt_notice"
  by (simp add: is_summary_def interrupt_notice_def newline_def)

lemma is_summary_summary: "is_summary (summary_line c n)"
  by (simp add: is_summary_def summary_line_def)

lemma filter_summary_diagnostics: "filter is_summary (diagnostics ds) = []"
  by (induction ds rule: diagnostics.induct)
    (simp_all add: not_summary_failed split: outcome.split)

lemma notice_not_diagnostic: "interrupt_notice \<notin> set (diagnostics ds)"
  by (induction ds rule: diagnostics.induct)
    (simp_all add: interrupt_notice_def failed_line_def newline_def cross_mark_def
      split: outcome.split)

subsection \<open>The loop\<close>

lemma run_loop_settled:
  "\<forall>d\<in>set ds. \<not> interrupted d \<Longrightarrow> run_loop ds c lg = (lg @ trace ds, Inr (c + tally ds))"
  by (induction ds arbitrary: c lg) (auto simp: Let_def split: outcome.split)

lemma run_loop_append:
  "run_loop (pre @ post) c lg =
     (case run_loop pre c lg of
        (lg1, Inl x) \<Rightarrow> (lg1, Inl x)
      | (lg1, Inr c1) \<Rightarrow> run_loop post c1 lg1)"
  by (induction pre arbitrary: c lg) (auto simp: Let_def split: outcome.split)

lemma run_loop_Inr_settled:
  "run_loop ds c lg = (lg1, Inr c1) \<Longrightarrow> \<forall>d\<in>set ds. \<not> interrupted d"
proof (induction ds arbitrary: c lg)
  case Nil
  then show ?case by simp
next
  case (Cons d ds)
  obtain name f where d: "d = (name, f)" by (cases d)
  show ?case
  proof (cases "outcome f")
    case (Returned result)
    with Cons.prems d obtain c' lg' where "run_loop ds c' lg' = (lg1, Inr c1)"
      by (simp add: Let_def)
    then have "\<forall>d\<in>set ds. \<not> interrupted d"
      by (rule Cons.IH)
    with Returned d show ?thesis by simp
  next
    case (Raised e)
    with Cons.prems d obtain c' lg' where "run_loop ds c' lg' = (lg1, Inr c1)"
      by (simp add: Let_def)
    then have "\<forall>d\<in>set ds. \<not> interrupted d"
      by (rule Cons.IH)
    with Raised d show ?thesis by simp
  next
    case Interrupted
    with Cons.prems d show ?thesis by (simp add: Let_def)
  qed
qed

lemma run_loop_bounds:
  assumes "run_loop ds c lg = (lg1, Inr c1)"
  shows "c \<le> c1 \<and> c1 \<le> c + length ds"
proof -
  have "\<forall>d\<in>set ds. \<not> interrupted d"
    using assms by (rule run_loop_Inr_settled)
  then have "run_loop ds c lg = (lg @ trace ds, Inr (c + tally ds))"
    by (rule run_loop_settled)
  with assms have "c1 = c + tally ds" by simp
  then show ?thesis using tally_le [of ds] by simp
qed

lemma run_loop_interrupted:
  assumes "\<forall>d\<in>set pre. \<not> interrupted d" and "outcome f = Interrupted"
  shows "run_loop (pre @ (name, f) # post) c lg =
    (lg @ trace pre @ Invoke name # map OpPrint (prints f), Inl KeyboardInterrupt)"
  using assms by (simp add: run_loop_append run_loop_settled)

lemma run_batch_settled:
  "\<forall>d\<in>set ds. \<not> interrupted d \<Longrightarrow>
   run_batch ds lg =
     (lg @ trace ds @ [Print (newline @ rule50), Print (summary_line (tally ds) (length ds))],
      Inr ())"
  by (simp add: run_batch_def run_loop_settled)

lemma run_batch_interrupted:
  assumes "\<forall>d\<in>set pre. \<not> interrupted d" and "outcome f = Interrupted"
  shows "run_batch (pre @ (name, f) # post) lg =
    (lg @ trace pre @ Invoke name # map OpPrint (prints f), Inl KeyboardInterrupt)"
  using assms by (simp add: run_batch_def run_loop_interrupted)

subsection \<open>Setup\<close>

lemma run_all_demos_ready:
  assumes "ready ev"
  shows "\<exists>lg0. (\<forall>ds. run_all_demos ev ds = run_batch ds lg0)
           \<and> invoked lg0 = [] \<and> filter is_summary (printed lg0) = []
           \<and> interrupt_notice \<notin> set (printed lg0)"
  using assms
  apply (cases "sdk ev"; cases "api_key ev"; cases "cli ev";
      simp add: ready_def run_all_demos_def install_requirements_def setup_api_key_def
        check_claude_cli_def)
  apply (rule exI, rule conjI, rule allI, rule refl,
      simp add: is_summary_def check_mark_def info_mark_def rule50_head
        interrupt_notice_def newline_def)+
  done

lemma simple_run_all_demos_ready:
  assumes "simple_ready ev"
  shows "\<exists>lg0. (\<forall>ds. simple_run_all_demos ev ds = run_batch ds lg0)
           \<and> invoked lg0 = [] \<and> filter is_summary (printed lg0) = []
           \<and> interrupt_notice \<notin> set (printed lg0)"
  using assms
  apply (cases "sdk ev"; cases "api_key ev";
      simp add: simple_ready_def simple_run_all_demos_def install_requirements_def
        setup_api_key_def)
  apply (rule exI, rule conjI, rule allI, rule refl,
      simp add: is_summary_def check_mark_def rule50_head interrupt_notice_def newline_def)+
  done

subsection \<open>Diagnostics and names\<close>

lemma starts_with_append: "starts_with (name @ rest) name"
  by (induction name) simp_all

lemma starts_with_mentions: "starts_with l name \<Longrightarrow> mentions l name"
  by (cases l) simp_all

lemma mentions_append: "mentions (pre @ name @ rest) name"
proof (induction pre)
  case Nil
  show ?case
    by (simp add: starts_with_mentions starts_with_append)
next
  case (Cons x pre)
  then show ?case by simp
qed

lemma mentions_failed_line: "mentions (failed_line name e) name"
  using mentions_append [of "cross_mark @ '' ''" name "'' demo failed: '' @ e"]
  by (simp add: failed_line_def)

lemma raised_in_diagnostics:
  "(name, f) \<in> set ds \<Longrightarrow> outcome f = Raised e \<Longrightarrow> failed_line name e \<in> set (diagnostics ds)"
  by (induction ds rule: diagnostics.induct) (auto split: outcome.split)

lemma main_of_interrupt: "main_of (lg, Inl KeyboardInterrupt) = lg @ [Print interrupt_notice]"
  by (simp add: main_of_def interrupt_notice_def)

lemma main_of_settled: "main_of (lg, Inr u) = lg"
  by (simp add: main_of_def)

lemma summary_0_0: "summary_line 0 0 = ''Completed 0/0 demos successfully!''"
  by (simp add: summary_line_def str_nat.simps)

lemma summary_2_4: "summary_line 2 4 = ''Completed 2/4 demos successfully!''"
  by (simp add: summary_line_def str_nat.simps)

lemma ready_ready_env: "ready ready_env" "simple_ready ready_env"
  by (simp_all add: ready_def simple_ready_def ready_env_def)

lemma main_settled:
  assumes "\<forall>d\<in>set ds. \<not> interrupted d"
  shows "ready ev \<longrightarrow>
           invoked (main ev ds) = map fst ds
         \<and> filter is_summary (printed (main ev ds)) = [summary_line (tally ds) (length ds)]"
    and "simple_ready ev \<longrightarrow>
           invoked (simple_main ev ds) = map fst ds
         \<and> filter is_summary (printed (simple_main ev ds)) = [summary_line (tally ds) (length ds)]"
proof -
  have batch: "invoked (main_of (run_batch ds lg0)) = map fst ds
      \<and> filter is_summary (printed (main_of (run_batch ds lg0))) =
          [summary_line (tally ds) (length ds)]"
    if "invoked lg0 = []" and "filter is_summary (printed lg0) = []" for lg0
    using that
    by (simp add: run_batch_settled [OF assms] main_of_settled invoked_append invoked_trace
        printed_append printed_trace filter_summary_diagnostics not_summary_rule
        is_summary_summary)
  show "ready ev \<longrightarrow>
           invoked (main ev ds) = map fst ds
         \<and> filter is_summary (printed (main ev ds)) = [summary_line (tally ds) (length ds)]"
  proof
    assume "ready ev"
    then obtain lg0 where "\<forall>ds. run_all_demos ev ds = run_batch ds lg0"
      and "invoked lg0 = []" and "filter is_summary (printed lg0) = []"
      using run_all_demos_ready by blast
    then show "invoked (main ev ds) = map fst ds
         \<and> filter is_summary (printed (main ev ds)) = [summary_line (tally ds) (length ds)]"
      using batch [of lg0] by (simp add: main_def)
  qed
  show "simple_ready ev \<longrightarrow>
           invoked (simple_main ev ds) = map fst ds
         \<and> filter is_summary (printed (simple_main ev ds)) = [summary_line (tally ds) (length ds)]"
  proof
    assume "simple_ready ev"
    then obtain lg0 where "\<forall>ds. simple_run_all_demos ev ds = run_batch ds lg0"
      and "invoked lg0 = []" and "filter is_summary (printed lg0) = []"
      using simple_run_all_demos_ready by blast
    then show "invoked (simple_main ev ds) = map fst ds
         \<and> filter is_summary (printed (simple_main ev ds)) =
             [summary_line (tally ds) (length ds)]"
      using batch [of lg0] by (simp add: simple_main_def)
  qed
qed

lemma main_interrupted:
  assumes "\<forall>d\<in>set pre. \<not> interrupted d" and "outcome f = Interrupted"
  shows "ready ev \<longrightarrow>
           invoked (main ev (pre @ (name, f) # post)) = map fst pre @ [name]
         \<and> filter is_summary (printed (main ev (pre @ (name, f) # post))) = []
         \<and> last (printed (main ev (pre @ (name, f) # post))) = interrupt_notice"
    and "simple_ready ev \<longrightarrow>
           invoked (simple_main ev (pre @ (name, f) # post)) = map fst pre @ [name]
         \<and> filter is_summary (printed (simple_main ev (pre @ (name, f) # post))) = []
         \<and> last (printed (simple_main ev (pre @ (name, f) # post))) = interrupt_notice"
proof -
  let ?ds = "pre @ (name, f) # post"
  have batch: "invoked (main_of (run_batch ?ds lg0)) = map fst pre @ [name]
      \<and> filter is_summary (printed (main_of (run_batch ?ds lg0))) = []
      \<and> last (printed (main_of (run_batch ?ds lg0))) = interrupt_notice"
    if "invoked lg0 = []" and "filter is_summary (printed lg0) = []" for lg0
    using that
    by (simp add: run_batch_interrupted [OF assms] main_of_interrupt invoked_append
        invoked_trace invoked_OpPrint printed_append printed_trace printed_OpPrint
        filter_summary_diagnostics not_summary_notice)
  show "ready ev \<longrightarrow>
           invoked (main ev ?ds) = map fst pre @ [name]
         \<and> filter is_summary (printed (main ev ?ds)) = []
         \<and> last (printed (main ev ?ds)) = interrupt_notice"
  proof
    assume "ready ev"
    then obtain lg0 where "\<forall>ds. run_all_demos ev ds = run_batch ds lg0"
      and "invoked lg0 = []" and "filter is_summary (printed lg0) = []"
      using run_all_demos_ready by blast
    then show "invoked (main ev ?ds) = map fst pre @ [name]
         \<and> filter is_summary (printed (main ev ?ds)) = []
         \<and> last (printed (main ev ?ds)) = interrupt_notice"
      using batch [of lg0] by (simp add: main_def)
  qed
  show "simple_ready ev \<longrightarrow>
           invoked (simple_main ev ?ds) = map fst pre @ [name]
         \<and> filter is_summary (printed (simple_main ev ?ds)) = []
         \<and> last (printed (simple_main ev ?ds)) = interrupt_notice"
  proof
    assume "simple_ready ev"
    then obtain lg0 where "\<forall>ds. simple_run_all_demos ev ds = run_batch ds lg0"
      and "invoked lg0 = []" and "filter is_summary (printed lg0) = []"
      using simple_run_all_demos_ready by blast
    then show "invoked (simple_main ev ?ds) = map fst pre @ [name]
         \<and> filter is_summary (printed (simple_main ev ?ds)) = []
         \<and> last (printed (simple_main ev ?ds)) = interrupt_notice"
      using batch [of lg0] by (simp add: simple_main_def)
  qed
qed

subsection \<open>The loop's log\<close>

lemma run_loop_log_grows: "\<exists>ext. fst (run_loop ds c lg) = lg @ ext"
proof (induction ds arbitrary: c lg)
  case Nil
  show ?case by simp
next
  case (Cons d ds)
  obtain name f where d: "d = (name, f)" by (cases d)
  show ?case
  proof (cases "outcome f")
    case (Returned result)
    obtain ext where "fst (run_loop ds (if result then c + 1 else c)
        (lg @ Invoke name # map OpPrint (prints f))) =
        (lg @ Invoke name # map OpPrint (prints f)) @ ext"
      using Cons.IH by blast
    with Returned d show ?thesis by (simp add: Let_def)
  next
    case (Raised e)
    obtain ext where "fst (run_loop ds c
        (lg @ Invoke name # map OpPrint (prints f) @ [Print (failed_line name e)])) =
        (lg @ Invoke name # map OpPrint (prints f) @ [Print (failed_line name e)]) @ ext"
      using Cons.IH by blast
    with Raised d show ?thesis by (simp add: Let_def)
  next
    case Interrupted
    with d show ?thesis by (simp add: Let_def)
  qed
qed

lemma run_loop_append_log:
  "\<exists>ext. fst (run_loop (pre @ post) c lg) = fst (run_loop pre c lg) @ ext"
proof (cases "run_loop pre c lg")
  case (Pair lg1 r)
  show ?thesis
  proof (cases r)
    case (Inl x)
    with Pair show ?thesis by (simp add: run_loop_append)
  next
    case (Inr c1)
    obtain ext where "fst (run_loop post c1 lg1) = lg1 @ ext"
      using run_loop_log_grows by blast
    with Pair Inr show ?thesis by (simp add: run_loop_append)
  qed
qed

subsection \<open>The pending cancellation\<close>

lemma deferred_loop_plain:
  "deferred_loop None False sds c lg =
     (case run_loop (map plain sds) c lg of
        (lg1, Inl x) \<Rightarrow> (lg1, Inl x)
      | (lg1, Inr c1) \<Rightarrow> (lg1, Inr (c1, False)))"
  by (induction sds arbitrary: c lg) (auto simp: Let_def split: outcome.split)

lemma deferred_loop_pending_settled:
  "\<forall>d\<in>set sds. \<not> interrupted (plain d) \<and> await_at (snd d) = None \<Longrightarrow>
   deferred_loop None True sds c lg =
     (lg @ trace (map plain sds), Inr (c + tally (map plain sds), True))"
  by (induction sds arbitrary: c lg) (auto simp: Let_def split: outcome.split)

lemma deferred_loop_pending_cancelled:
  "\<forall>d\<in>set mid. \<not> interrupted (plain d) \<and> await_at (snd d) = None \<Longrightarrow>
   await_at f = Some n \<Longrightarrow>
   deferred_loop None True (mid @ (name, f) # post) c lg =
     (lg @ trace (map plain mid) @ Invoke name # map OpPrint (take n (prints f)),
      Inl KeyboardInterrupt)"
  by (induction mid arbitrary: c lg) (auto simp: Let_def split: outcome.split)

lemma deferred_loop_before_signal:
  "\<forall>d\<in>set pre. \<not> interrupted (plain d) \<Longrightarrow>
   deferred_loop (Some (length pre + j)) False (pre @ rest) c lg =
     deferred_loop (Some j) False rest (c + tally (map plain pre)) (lg @ trace (map plain pre))"
  by (induction pre arbitrary: c lg) (auto simp: Let_def split: outcome.split)

lemma deferred_loop_at_signal:
  "\<not> interrupted (plain (name, f)) \<Longrightarrow>
   deferred_loop (Some 0) False ((name, f) # rest) c lg =
     deferred_loop None True rest (c + tally [plain (name, f)]) (lg @ trace [plain (name, f)])"
  by (auto simp: Let_def split: outcome.split)

lemma deferred_loop_signal:
  assumes "\<forall>d\<in>set spre. \<not> interrupted (plain d)" and "\<not> interrupted (plain (name1, f1))"
  shows "deferred_loop (Some (length spre)) False (spre @ (name1, f1) # rest) 0 lg =
     deferred_loop None True rest (tally (map plain (spre @ [(name1, f1)])))
       (lg @ trace (map plain (spre @ [(name1, f1)])))"
  using deferred_loop_before_signal [OF assms(1), of 0 "(name1, f1) # rest" 0 lg]
    deferred_loop_at_signal [OF assms(2), of rest "tally (map plain spre)"
      "lg @ trace (map plain spre)"]
  by (simp add: tally_append trace_append)

lemma deferred_none: "main_of (asyncio_run (deferred_batch None sds lg)) = main_of (run_batch (map plain sds) lg)"
  by (cases "run_loop (map plain sds) 0 lg")
    (auto simp: deferred_batch_def run_batch_def asyncio_run_def deferred_loop_plain main_of_def
      split: sum.split fault.split)

lemma late_signal_completes:
  assumes "\<forall>d\<in>set (spre @ (name1, f1) # mid). \<not> interrupted (plain d)"
    and "\<forall>d\<in>set mid. await_at (snd d) = None"
  shows "main_of (asyncio_run (deferred_batch (Some (length spre)) (spre @ (name1, f1) # mid) lg)) =
     lg @ trace (map plain (spre @ (name1, f1) # mid))
       @ [Print (newline @ rule50),
          Print (summary_line (tally (map plain (spre @ (name1, f1) # mid)))
                   (Suc (length spre + length mid))),
          Print (newline @ newline @ ''Demo interrupted by user'')]"
proof -
  have a: "\<forall>d\<in>set spre. \<not> interrupted (plain d)" and b: "\<not> interrupted (plain (name1, f1))"
    and c: "\<forall>d\<in>set mid. \<not> interrupted (plain d) \<and> await_at (snd d) = None"
    using assms by auto
  show ?thesis
    by (simp add: deferred_batch_def deferred_loop_signal [OF a b]
        deferred_loop_pending_settled [OF c] asyncio_run_def main_of_def
        tally_append trace_append)
qed

lemma late_signal_cancels_next_await:
  assumes "\<forall>d\<in>set (spre @ (name1, f1) # mid). \<not> interrupted (plain d)"
    and "\<forall>d\<in>set mid. await_at (snd d) = None"
    and "await_at f2 = Some n"
  shows "main_of (asyncio_run (deferred_batch (Some (length spre))
            (spre @ (name1, f1) # mid @ (name2, f2) # post2) lg)) =
     lg @ trace (map plain (spre @ (name1, f1) # mid))
       @ Invoke name2 # map OpPrint (take n (prints f2))
       @ [Print (newline @ newline @ ''Demo interrupted by user'')]"
proof -
  have a: "\<forall>d\<in>set spre. \<not> interrupted (plain d)" and b: "\<not> interrupted (plain (name1, f1))"
    and c: "\<forall>d\<in>set mid. \<not> interrupted (plain d) \<and> await_at (snd d) = None"
    using assms by auto
  show ?thesis
    by (simp add: deferred_batch_def deferred_loop_signal [OF a b]
        deferred_loop_pending_cancelled [OF c assms(3)] asyncio_run_def main_of_def
        tally_append trace_append)
qed

section \<open>The claims\<close>

text \<open>
  C1. For a batch of N demos none of which is interrupted, the runner calls each demo
  function once, in the order of the list, whatever the earlier demos did (returned true,
  returned false or raised); the run ends normally, and the total in the summary line is
  N, the length of the list.
\<close>

theorem each_demo_called_once_in_order:
  assumes "\<forall>d\<in>set ds. \<not> interrupted d"
  shows "invoked (fst (run_batch ds lg)) = invoked lg @ map fst ds
       \<and> snd (run_batch ds lg) = Inr ()
       \<and> last (printed (fst (run_batch ds lg))) = summary_line (tally ds) (length ds)"
  using assms
  by (simp add: run_batch_settled invoked_append invoked_trace printed_append)

theorem each_demo_called_once_in_order_witness:
  "list_all (\<lambda>d. \<not> interrupted d) mixed_batch
   \<and> invoked (fst (run_batch mixed_batch [])) = [''A'', ''B'', ''C'', ''D'']
   \<and> snd (run_batch mixed_batch []) = Inr ()
   \<and> last (printed (fst (run_batch mixed_batch []))) = ''Completed 2/4 demos successfully!''"
proof -
  have h: "\<forall>d\<in>set mixed_batch. \<not> interrupted d"
    by (simp add: mixed_batch_def)
  have m: "map fst mixed_batch = [''A'', ''B'', ''C'', ''D'']" and l: "length mixed_batch = 4"
    and t: "tally mixed_batch = 2"
    by (simp_all add: mixed_batch_def)
  have s: "summary_line 2 4 = ''Completed 2/4 demos successfully!''"
    by (simp add: summary_line_def str_nat.simps)
  show ?thesis
    using h each_demo_called_once_in_order [OF h, of "[]"] by (simp add: m l t s list_all_iff)
qed

text \<open>
  C2. \<open>run_all_demos\<close> starts the counter at zero: a batch with no demo reports 0 of 0.
  After the first k demos of a batch the counter is at most k, which is at most the
  length of the list; this state is a state of the run itself, which goes on from it with
  the remaining demos and reports the count it ends with; one more demo leaves the
  counter unchanged or adds one; and the count in the final report, which \<open>main\<close>
  leaves as the last line, is at most the number of demos.
\<close>

theorem successful_never_exceeds_attempted:
  assumes "k \<le> length ds" and "run_loop (take k ds) 0 lg = (lg1, Inr c)"
  shows "run_batch [] lg =
           (lg @ [Print (newline @ rule50), Print ''Completed 0/0 demos successfully!''], Inr ())
       \<and> run_batch ds lg =
           (case run_loop (drop k ds) c lg1 of
              (lg2, Inl x) \<Rightarrow> (lg2, Inl x)
            | (lg2, Inr c2) \<Rightarrow>
                (lg2 @ [Print (newline @ rule50),
                        Print (''Completed '' @ str_nat c2 @ ''/'' @ str_nat (length ds)
                                 @ '' demos successfully!'')], Inr ()))
       \<and> c \<le> k \<and> k \<le> length ds
       \<and> (\<forall>lg2 c2. run_loop (take (Suc k) ds) 0 lg = (lg2, Inr c2) \<longrightarrow> c \<le> c2 \<and> c2 \<le> c + 1)
       \<and> (\<forall>lg3 c3. run_loop ds 0 lg = (lg3, Inr c3) \<longrightarrow>
            c3 \<le> length ds
          \<and> main_of (run_batch ds lg) =
              lg3 @ [Print (newline @ rule50),
                     Print (''Completed '' @ str_nat c3 @ ''/'' @ str_nat (length ds)
                              @ '' demos successfully!'')])"
proof -
  have empty: "run_batch [] lg =
      (lg @ [Print (newline @ rule50), Print ''Completed 0/0 demos successfully!''], Inr ())"
    by (simp add: run_batch_def summary_0_0)
  have cont: "run_loop ds 0 lg = run_loop (drop k ds) c lg1"
    using run_loop_append [of "take k ds" "drop k ds" 0 lg] assms(2) by simp
  have batch: "run_batch ds lg =
           (case run_loop (drop k ds) c lg1 of
              (lg2, Inl x) \<Rightarrow> (lg2, Inl x)
            | (lg2, Inr c2) \<Rightarrow>
                (lg2 @ [Print (newline @ rule50),
                        Print (''Completed '' @ str_nat c2 @ ''/'' @ str_nat (length ds)
                                 @ '' demos successfully!'')], Inr ()))"
    by (simp add: run_batch_def cont summary_line_def split: prod.split sum.split)
  have ck: "c \<le> k"
    using run_loop_bounds [OF assms(2)] assms(1) by simp
  have step: "c \<le> c2 \<and> c2 \<le> c + 1"
    if "run_loop (take (Suc k) ds) 0 lg = (lg2, Inr c2)" for lg2 c2
  proof -
    have "take (Suc k) ds = take k ds @ take 1 (drop k ds)"
      using take_add [of k 1 ds] by simp
    then have "run_loop (take 1 (drop k ds)) c lg1 = (lg2, Inr c2)"
      using that run_loop_append [of "take k ds" "take 1 (drop k ds)" 0 lg] assms(2) by simp
    then have "c \<le> c2 \<and> c2 \<le> c + length (take 1 (drop k ds))"
      by (rule run_loop_bounds)
    moreover have "length (take 1 (drop k ds)) \<le> 1"
      by simp
    ultimately show ?thesis by linarith
  qed
  have final: "c3 \<le> length ds
          \<and> main_of (run_batch ds lg) =
              lg3 @ [Print (newline @ rule50),
                     Print (''Completed '' @ str_nat c3 @ ''/'' @ str_nat (length ds)
                              @ '' demos successfully!'')]"
    if "run_loop ds 0 lg = (lg3, Inr c3)" for lg3 c3
    using run_loop_bounds [OF that] that
    by (simp add: run_batch_def main_of_def summary_line_def)
  show ?thesis
    using empty batch ck assms(1) step final by blast
qed

theorem successful_never_exceeds_attempted_witness:
  "(3::nat) \<le> length mixed_batch
   \<and> run_loop (take 3 mixed_batch) 0 [] =
       ([Invoke ''A'', OpPrint ''a'', Invoke ''B'',
         Print (CHR 0xE2 # CHR 0x9D # CHR 0x8C # '' B demo failed: boom''),
         Invoke ''C'', OpPrint (CHR 0xE2 # CHR 0x9D # CHR 0x8C # '' Error: timeout'')], Inr 1)
   \<and> (1::nat) \<le> 3
   \<and> run_batch mixed_batch [] =
       ([Invoke ''A'', OpPrint ''a'', Invoke ''B'',
         Print (CHR 0xE2 # CHR 0x9D # CHR 0x8C # '' B demo failed: boom''),
         Invoke ''C'', OpPrint (CHR 0xE2 # CHR 0x9D # CHR 0x8C # '' Error: timeout''),
         Invoke ''D'', OpPrint ''d'',
         Print (CHR 0x0A # replicate 50 (CHR ''='')),
         Print ''Completed 2/4 demos successfully!''], Inr ())"
proof -
  have h1: "(3::nat) \<le> length mixed_batch"
    by (simp add: mixed_batch_def)
  have h2: "run_loop (take 3 mixed_batch) 0 [] =
       ([Invoke ''A'', OpPrint ''a'', Invoke ''B'',
         Print (CHR 0xE2 # CHR 0x9D # CHR 0x8C # '' B demo failed: boom''),
         Invoke ''C'', OpPrint (CHR 0xE2 # CHR 0x9D # CHR 0x8C # '' Error: timeout'')], Inr 1)"
    by (simp add: mixed_batch_def failed_line_def cross_mark_def)
  have d: "drop 3 mixed_batch = [(''D'', \<lparr>prints = [''d''], outcome = Returned True\<rparr>)]"
    and l: "length mixed_batch = 4"
    by (simp_all add: mixed_batch_def)
  show ?thesis
    using h1 h2 successful_never_exceeds_attempted [OF h1 h2]
    by (simp add: d l str_nat.simps newline_def rule50_def)
qed

text \<open>
  C3. When a demo raises an exception and no demo of the batch is interrupted, the runner
  catches it: right after the demo's own output it prints the cross mark, the demo's name
  and "demo failed:" with the error, a line that contains the name; it adds nothing to the
  count for that demo, goes on to call every later demo in order, and the run ends
  normally with the summary line.
\<close>

theorem raising_demo_does_not_stop_the_batch:
  assumes "outcome f = Raised e"
    and "\<forall>d\<in>set pre. \<not> interrupted d" and "\<forall>d\<in>set post. \<not> interrupted d"
  shows "run_loop (pre @ (name, f) # post) 0 lg =
           (lg @ trace pre @ Invoke name # map OpPrint (prints f)
               @ Print (cross_mark @ '' '' @ name @ '' demo failed: '' @ e) # trace post,
            Inr (tally pre + tally post))
       \<and> mentions (cross_mark @ '' '' @ name @ '' demo failed: '' @ e) name
       \<and> printed (fst (run_loop (pre @ (name, f) # post) 0 lg)) =
           printed lg @ diagnostics pre
             @ (cross_mark @ '' '' @ name @ '' demo failed: '' @ e) # diagnostics post
       \<and> invoked (fst (run_loop (pre @ (name, f) # post) 0 lg)) =
           invoked lg @ map fst pre @ name # map fst post
       \<and> snd (run_batch (pre @ (name, f) # post) lg) = Inr ()
       \<and> last (printed (fst (run_batch (pre @ (name, f) # post) lg))) =
           ''Completed '' @ str_nat (tally pre + tally post) @ ''/''
             @ str_nat (Suc (length pre + length post)) @ '' demos successfully!''"
proof -
  have settled: "\<forall>d\<in>set (pre @ (name, f) # post). \<not> interrupted d"
    using assms by auto
  have tr: "trace (pre @ (name, f) # post) =
      trace pre @ Invoke name # map OpPrint (prints f)
        @ Print (cross_mark @ '' '' @ name @ '' demo failed: '' @ e) # trace post"
    using assms(1) by (simp add: trace_append failed_line_def)
  have ta: "tally (pre @ (name, f) # post) = tally pre + tally post"
    using assms(1) by (simp add: tally_append)
  have run: "run_loop (pre @ (name, f) # post) 0 lg =
           (lg @ trace pre @ Invoke name # map OpPrint (prints f)
               @ Print (cross_mark @ '' '' @ name @ '' demo failed: '' @ e) # trace post,
            Inr (tally pre + tally post))"
    using run_loop_settled [OF settled, of 0 lg] by (simp add: tr ta)
  have m: "mentions (cross_mark @ '' '' @ name @ '' demo failed: '' @ e) name"
    using mentions_failed_line [of name e] by (simp add: failed_line_def)
  have batch: "run_batch (pre @ (name, f) # post) lg =
      (lg @ trace (pre @ (name, f) # post)
         @ [Print (newline @ rule50),
            Print (summary_line (tally pre + tally post) (Suc (length pre + length post)))],
       Inr ())"
    using run_batch_settled [OF settled, of lg] by (simp add: ta)
  have "snd (run_batch (pre @ (name, f) # post) lg) = Inr ()"
    and "last (printed (fst (run_batch (pre @ (name, f) # post) lg))) =
           ''Completed '' @ str_nat (tally pre + tally post) @ ''/''
             @ str_nat (Suc (length pre + length post)) @ '' demos successfully!''"
    by (simp_all add: batch printed_append summary_line_def)
  moreover have "printed (fst (run_loop (pre @ (name, f) # post) 0 lg)) =
           printed lg @ diagnostics pre
             @ (cross_mark @ '' '' @ name @ '' demo failed: '' @ e) # diagnostics post"
    by (simp add: run printed_append printed_trace printed_OpPrint)
  moreover have "invoked (fst (run_loop (pre @ (name, f) # post) 0 lg)) =
           invoked lg @ map fst pre @ name # map fst post"
    by (simp add: run invoked_append invoked_trace invoked_OpPrint)
  ultimately show ?thesis
    using run m by blast
qed

theorem raising_demo_does_not_stop_the_batch_witness:
  "outcome \<lparr>prints = [], outcome = Raised ''boom''\<rparr> = Raised ''boom''
   \<and> list_all (\<lambda>d. \<not> interrupted d) [(''A'', \<lparr>prints = [''a''], outcome = Returned True\<rparr>)]
   \<and> list_all (\<lambda>d. \<not> interrupted d) [(''C'', \<lparr>prints = [], outcome = Returned False\<rparr>),
               (''D'', \<lparr>prints = [''d''], outcome = Returned True\<rparr>)]
   \<and> run_loop
         [(''A'', \<lparr>prints = [''a''], outcome = Returned True\<rparr>),
          (''B'', \<lparr>prints = [], outcome = Raised ''boom''\<rparr>),
          (''C'', \<lparr>prints = [], outcome = Returned False\<rparr>),
          (''D'', \<lparr>prints = [''d''], outcome = Returned True\<rparr>)] 0 [] =
       ([Invoke ''A'', OpPrint ''a'', Invoke ''B'',
         Print (CHR 0xE2 # CHR 0x9D # CHR 0x8C # '' B demo failed: boom''),
         Invoke ''C'', Invoke ''D'', OpPrint ''d''], Inr 2)
   \<and> mentions (CHR 0xE2 # CHR 0x9D # CHR 0x8C # '' B demo failed: boom'') ''B''
   \<and> snd (run_batch
         [(''A'', \<lparr>prints = [''a''], outcome = Returned True\<rparr>),
          (''B'', \<lparr>prints = [], outcome = Raised ''boom''\<rparr>),
          (''C'', \<lparr>prints = [], outcome = Returned False\<rparr>),
          (''D'', \<lparr>prints = [''d''], outcome = Returned True\<rparr>)] []) = Inr ()
   \<and> last (printed (fst (run_batch
         [(''A'', \<lparr>prints = [''a''], outcome = Returned True\<rparr>),
          (''B'', \<lparr>prints = [], outcome = Raised ''boom''\<rparr>),
          (''C'', \<lparr>prints = [], outcome = Returned False\<rparr>),
          (''D'', \<lparr>prints = [''d''], outcome = Returned True\<rparr>)] []))) =
       ''Completed 2/4 demos successfully!''"
proof -
  have h1: "outcome \<lparr>prints = [], outcome = Raised ''boom''\<rparr> = Raised ''boom''"
    by simp
  have h2: "\<forall>d\<in>set [(''A'', \<lparr>prints = [''a''], outcome = Returned True\<rparr>)]. \<not> interrupted d"
    by simp
  have h3: "\<forall>d\<in>set [(''C'', \<lparr>prints = [], outcome = Returned False\<rparr>),
               (''D'', \<lparr>prints = [''d''], outcome = Returned True\<rparr>)]. \<not> interrupted d"
    by simp
  have e1: "tally [(''A'', \<lparr>prints = [''a''], outcome = Returned True\<rparr>)]
      + tally [(''C'', \<lparr>prints = [], outcome = Returned False\<rparr>),
               (''D'', \<lparr>prints = [''d''], outcome = Returned True\<rparr>)] = 2"
    by simp
  have e2: "Suc (length [(''A'', \<lparr>prints = [''a''], outcome = Returned True\<rparr>)]
      + length [(''C'', \<lparr>prints = [], outcome = Returned False\<rparr>),
                (''D'', \<lparr>prints = [''d''], outcome = Returned True\<rparr>)]) = 4"
    by simp
  have s: "str_nat 2 = ''2''" "str_nat 4 = ''4''"
    by (simp_all add: str_nat.simps)
  show ?thesis
    using h2 h3 raising_demo_does_not_stop_the_batch [OF h1 h2 h3, of "''B''" "[]"]
    unfolding e1 e2 s by (simp add: cross_mark_def)
qed

text \<open>
  C4. When every demo of a batch of N returns \<open>True\<close>, the count is N and the summary
  line reports N out of N; a second run of the same batch, started where the first one
  ended, counts from zero again and prints the same summary line.
\<close>

theorem all_passing_batch_counts_all:
  assumes "\<forall>d\<in>set ds. outcome (snd d) = Returned True"
  shows "snd (run_loop ds 0 lg) = Inr (length ds)
       \<and> last (printed (fst (run_batch ds lg))) = summary_line (length ds) (length ds)
       \<and> snd (run_loop ds 0 (fst (run_batch ds lg))) = Inr (length ds)
       \<and> last (printed (fst (run_batch ds (fst (run_batch ds lg))))) =
           last (printed (fst (run_batch ds lg)))"
proof -
  have settled: "\<forall>d\<in>set ds. \<not> interrupted d"
    using assms by auto
  have t: "tally ds = length ds"
    using assms by (rule tally_all_true)
  show ?thesis
    by (simp add: run_loop_settled [OF settled] run_batch_settled [OF settled] t printed_append)
qed

theorem all_passing_batch_counts_all_witness:
  "list_all (\<lambda>d. outcome (snd d) = Returned True) passing_batch
   \<and> snd (run_loop passing_batch 0 []) = Inr 2
   \<and> last (printed (fst (run_batch passing_batch []))) = ''Completed 2/2 demos successfully!''
   \<and> snd (run_loop passing_batch 0 (fst (run_batch passing_batch []))) = Inr 2
   \<and> last (printed (fst (run_batch passing_batch (fst (run_batch passing_batch []))))) =
       ''Completed 2/2 demos successfully!''"
proof -
  have h: "\<forall>d\<in>set passing_batch. outcome (snd d) = Returned True"
    by (simp add: passing_batch_def)
  have l: "length passing_batch = 2"
    by (simp add: passing_batch_def)
  have s: "summary_line 2 2 = ''Completed 2/2 demos successfully!''"
    by (simp add: summary_line_def str_nat.simps)
  show ?thesis
    using h all_passing_batch_counts_all [OF h, of "[]"] by (simp add: l s list_all_iff)
qed

text \<open>
  C5. When every demo of a batch of N fails (it returns \<open>False\<close> or raises an
  exception), the count is 0, the summary line reports 0 out of N, \<open>run_all_demos\<close> ends
  normally and \<open>main\<close> has nothing to catch.
\<close>

theorem all_failing_batch_counts_none:
  assumes "\<forall>d\<in>set ds. \<not> interrupted d \<and> \<not> succeeded (snd d)"
  shows "snd (run_loop ds 0 lg) = Inr 0
       \<and> last (printed (fst (run_batch ds lg))) = summary_line 0 (length ds)
       \<and> snd (run_batch ds lg) = Inr ()
       \<and> main_of (run_batch ds lg) = fst (run_batch ds lg)"
proof -
  have settled: "\<forall>d\<in>set ds. \<not> interrupted d"
    using assms by auto
  have t: "tally ds = 0"
    using assms tally_none [of ds] by blast
  show ?thesis
    by (simp add: run_loop_settled [OF settled] run_batch_settled [OF settled] t printed_append
        main_of_def)
qed

theorem all_failing_batch_counts_none_witness:
  "list_all (\<lambda>d. \<not> interrupted d \<and> \<not> succeeded (snd d)) failing_batch
   \<and> snd (run_loop failing_batch 0 []) = Inr 0
   \<and> last (printed (fst (run_batch failing_batch []))) = ''Completed 0/2 demos successfully!''
   \<and> snd (run_batch failing_batch []) = Inr ()
   \<and> main_of (run_batch failing_batch []) = fst (run_batch failing_batch [])"
proof -
  have h: "\<forall>d\<in>set failing_batch. \<not> interrupted d \<and> \<not> succeeded (snd d)"
    by (simp add: failing_batch_def)
  have l: "length failing_batch = 2"
    by (simp add: failing_batch_def)
  have s: "summary_line 0 2 = ''Completed 0/2 demos successfully!''"
    by (simp add: summary_line_def str_nat.simps)
  show ?thesis
    using h all_failing_batch_counts_none [OF h, of "[]"] by (simp add: l s list_all_iff)
qed

text \<open>
  C6, as the specification words it, fails: for the empty batch the runner prints a rule
  and the line "Completed 0/0 demos successfully!"; neither "Completed 0/0 units
  successfully." nor that text without the full stop is printed.
\<close>

theorem empty_batch_summary_is_not_the_quoted_text:
  "printed (fst (run_batch [] [])) = [newline @ rule50, ''Completed 0/0 demos successfully!'']
   \<and> ''Completed 0/0 units successfully.'' \<notin> set (printed (fst (run_batch [] [])))
   \<and> ''Completed 0/0 units successfully'' \<notin> set (printed (fst (run_batch [] [])))"
  by (simp add: run_batch_def summary_0_0 newline_def)

text \<open>
  C6, amended. For every batch in which no demo is interrupted (the empty batch included,
  which yields "Completed 0/0 demos successfully!"), once all demos have settled the
  runner prints a rule and then, as its last line, the summary
  "Completed X/Y demos successfully!", X the number of demos that returned true and Y the
  length of the list; it is the only line of that form the runner prints, in the batch
  and in the whole of \<open>main\<close> of either script, and the run ends normally.
\<close>

theorem one_summary_line_after_the_batch:
  assumes "\<forall>d\<in>set ds. \<not> interrupted d"
  shows "printed (fst (run_batch ds lg)) =
           printed lg @ diagnostics ds
             @ [newline @ rule50,
                ''Completed '' @ str_nat (tally ds) @ ''/'' @ str_nat (length ds)
                  @ '' demos successfully!'']
       \<and> filter is_summary (printed (fst (run_batch ds lg))) =
           filter is_summary (printed lg) @ [summary_line (tally ds) (length ds)]
       \<and> snd (run_batch ds lg) = Inr ()
       \<and> printed (fst (run_batch [] [])) =
           [newline @ rule50, ''Completed 0/0 demos successfully!'']
       \<and> (ready ev \<longrightarrow>
            filter is_summary (printed (main ev ds)) = [summary_line (tally ds) (length ds)])
       \<and> (simple_ready ev \<longrightarrow>
            filter is_summary (printed (simple_main ev ds)) =
              [summary_line (tally ds) (length ds)])"
proof -
  have "printed (fst (run_batch ds lg)) =
           printed lg @ diagnostics ds
             @ [newline @ rule50,
                ''Completed '' @ str_nat (tally ds) @ ''/'' @ str_nat (length ds)
                  @ '' demos successfully!'']"
    by (simp add: run_batch_settled [OF assms] printed_append printed_trace summary_line_def)
  moreover have "filter is_summary (printed (fst (run_batch ds lg))) =
           filter is_summary (printed lg) @ [summary_line (tally ds) (length ds)]"
    by (simp add: run_batch_settled [OF assms] printed_append printed_trace
        filter_summary_diagnostics not_summary_rule is_summary_summary)
  moreover have "snd (run_batch ds lg) = Inr ()"
    by (simp add: run_batch_settled [OF assms])
  moreover have "printed (fst (run_batch [] [])) =
           [newline @ rule50, ''Completed 0/0 demos successfully!'']"
    by (simp add: run_batch_def summary_0_0)
  ultimately show ?thesis
    using main_settled [OF assms, of ev] by simp
qed

theorem one_summary_line_after_the_batch_witness:
  "list_all (\<lambda>d. \<not> interrupted d) mixed_batch
   \<and> ready ready_env \<and> simple_ready ready_env
   \<and> printed (fst (run_batch mixed_batch [])) =
       [failed_line ''B'' ''boom'', newline @ rule50, ''Completed 2/4 demos successfully!'']
   \<and> filter is_summary (printed (main ready_env mixed_batch)) =
       [''Completed 2/4 demos successfully!'']
   \<and> filter is_summary (printed (simple_main ready_env mixed_batch)) =
       [''Completed 2/4 demos successfully!'']"
proof -
  have h: "\<forall>d\<in>set mixed_batch. \<not> interrupted d"
    by (simp add: mixed_batch_def)
  have l: "length mixed_batch = 4" and t: "tally mixed_batch = 2"
    and d: "diagnostics mixed_batch = [failed_line ''B'' ''boom'']"
    by (simp_all add: mixed_batch_def)
  show ?thesis
    using h ready_ready_env one_summary_line_after_the_batch [OF h, of "[]" ready_env]
    by (simp add: l t d summary_2_4 str_nat.simps list_all_iff)
qed

text \<open>
  C7, as the specification words it, fails: for the batch A (true), B (raises), C (false),
  D (true) the lines the runner prints are the diagnostic for B, a rule and
  "Completed 2/4 demos successfully!"; the text "Completed 2/4 units successfully." is
  not printed.
\<close>

theorem mixed_batch_report_is_not_the_quoted_text:
  "printed (fst (run_batch mixed_batch [])) =
     [cross_mark @ '' B demo failed: boom'', newline @ rule50,
      ''Completed 2/4 demos successfully!'']
   \<and> ''Completed 2/4 units successfully.'' \<notin> set (printed (fst (run_batch mixed_batch [])))"
proof -
  have h: "\<forall>d\<in>set mixed_batch. \<not> interrupted d"
    by (simp add: mixed_batch_def)
  have l: "length mixed_batch = 4" and t: "tally mixed_batch = 2"
    and d: "diagnostics mixed_batch = [failed_line ''B'' ''boom'']"
    by (simp_all add: mixed_batch_def)
  have "printed (fst (run_batch mixed_batch [])) =
     [failed_line ''B'' ''boom'', newline @ rule50, ''Completed 2/4 demos successfully!'']"
    by (simp add: run_batch_settled [OF h] printed_append printed_trace l t d summary_2_4)
  then show ?thesis
    by (simp add: failed_line_def cross_mark_def newline_def)
qed

text \<open>
  C7, amended. For the batch A (returns true), B (raises), C (returns false), D (returns
  true), whatever the demos print, the runner calls A, B, C, D in that order, prints the
  diagnostic for B, and its last line is "Completed 2/4 demos successfully!"; the count is
  the same, 2, when B returns false instead of raising.
\<close>

theorem mixed_batch_report:
  "invoked (fst (run_batch (scenario pa pb pc pd (Raised e)) [])) = [''A'', ''B'', ''C'', ''D'']
   \<and> printed (fst (run_batch (scenario pa pb pc pd (Raised e)) [])) =
       [cross_mark @ '' B demo failed: '' @ e, newline @ rule50,
        ''Completed 2/4 demos successfully!'']
   \<and> snd (run_batch (scenario pa pb pc pd (Raised e)) []) = Inr ()
   \<and> snd (run_loop (scenario pa pb pc pd (Raised e)) 0 []) = Inr 2
   \<and> snd (run_loop (scenario pa pb pc pd (Returned False)) 0 []) = Inr 2"
proof -
  have settled: "\<forall>d\<in>set (scenario pa pb pc pd b). \<not> interrupted d" if "b \<noteq> Interrupted" for b
    using that by (simp add: scenario_def)
  have t: "tally (scenario pa pb pc pd (Raised e)) = 2"
    "tally (scenario pa pb pc pd (Returned False)) = 2"
    and l: "length (scenario pa pb pc pd (Raised e)) = 4"
    and n: "map fst (scenario pa pb pc pd (Raised e)) = [''A'', ''B'', ''C'', ''D'']"
    and d: "diagnostics (scenario pa pb pc pd (Raised e)) = [failed_line ''B'' e]"
    by (simp_all add: scenario_def)
  have r: "run_batch (scenario pa pb pc pd (Raised e)) [] =
      (trace (scenario pa pb pc pd (Raised e))
         @ [Print (newline @ rule50), Print (summary_line 2 4)], Inr ())"
    using run_batch_settled [OF settled, of "Raised e" "[]"] by (simp add: t l)
  have c1: "snd (run_loop (scenario pa pb pc pd (Raised e)) 0 []) = Inr 2"
    using run_loop_settled [OF settled, of "Raised e" 0 "[]"] by (simp add: t)
  have c2: "snd (run_loop (scenario pa pb pc pd (Returned False)) 0 []) = Inr 2"
    using run_loop_settled [OF settled, of "Returned False" 0 "[]"] by (simp add: t)
  show ?thesis
    using c1 c2
    by (simp add: r invoked_append invoked_trace printed_append printed_trace n d
        summary_2_4 failed_line_def)
qed

text \<open>
  C8, as the specification words it, fails for an interrupt that arrives while code
  between awaits runs (\<open>asyncio.run\<close> of Python 3.11 and later). With five demos and the
  signal arriving while the second prints its answer, the third is still called and prints
  its banner before the run ends. With two demos and the signal arriving while the last
  prints its answer, the summary line is printed and the interruption notice after it.
\<close>

theorem late_interrupt_does_not_stop_at_once:
  "main_of (asyncio_run (deferred_batch (Some 1) late_five [])) =
     [Invoke ''A'', OpPrint ''a'', Invoke ''B'', OpPrint ''b'', Invoke ''C'',
      OpPrint ''banner c'', Print (CHR 0x0A # CHR 0x0A # ''Demo interrupted by user'')]
   \<and> main_of (asyncio_run (deferred_batch (Some 1) late_two [])) =
     [Invoke ''A'', OpPrint ''a'', Invoke ''B'', OpPrint ''b'',
      Print (CHR 0x0A # replicate 50 (CHR ''='')),
      Print ''Completed 2/2 demos successfully!'',
      Print (CHR 0x0A # CHR 0x0A # ''Demo interrupted by user'')]"
  by (simp add: late_five_def late_two_def deferred_batch_def asyncio_run_def main_of_def
      summary_line_def str_nat.simps newline_def rule50_def)

text \<open>
  C8, amended. When the interrupt reaches the run while a demo is awaited, neither the
  demo's own handler nor the runner's \<open>except Exception\<close> catches it: it leaves
  \<open>run_all_demos\<close>, no later demo is called, no summary line is printed, and \<open>main\<close>
  prints "Demo interrupted by user" as its last line. An interrupt that arrives while
  code between awaits runs is held until the next await that suspends: the demos before
  that await run as usual, the demo that reaches it is cut off there, no later demo is
  called and the notice follows without a summary; when no await follows, every demo
  runs, the summary line is printed and the notice after it. Without such a signal the run
  is the one described by \<open>run_batch\<close>.
\<close>

theorem interrupt_ends_the_run:
  assumes "\<forall>d\<in>set pre. \<not> interrupted d" and "outcome f = Interrupted"
  shows "snd (run_batch (pre @ (name, f) # post) lg) = Inl KeyboardInterrupt
       \<and> invoked (fst (run_batch (pre @ (name, f) # post) lg)) =
           invoked lg @ map fst pre @ [name]
       \<and> printed (main_of (run_batch (pre @ (name, f) # post) lg)) =
           printed lg @ diagnostics pre @ [newline @ newline @ ''Demo interrupted by user'']
       \<and> (ready ev \<longrightarrow>
            invoked (main ev (pre @ (name, f) # post)) = map fst pre @ [name]
          \<and> filter is_summary (printed (main ev (pre @ (name, f) # post))) = []
          \<and> last (printed (main ev (pre @ (name, f) # post))) = interrupt_notice)
       \<and> (simple_ready ev \<longrightarrow>
            invoked (simple_main ev (pre @ (name, f) # post)) = map fst pre @ [name]
          \<and> filter is_summary (printed (simple_main ev (pre @ (name, f) # post))) = []
          \<and> last (printed (simple_main ev (pre @ (name, f) # post))) = interrupt_notice)
       \<and> main_of (asyncio_run (deferred_batch None sds lg)) = main_of (run_batch (map plain sds) lg)
       \<and> ((\<forall>d\<in>set (spre @ (name1, f1) # mid). \<not> interrupted (plain d))
            \<and> (\<forall>d\<in>set mid. await_at (snd d) = None) \<longrightarrow>
            main_of (asyncio_run
                (deferred_batch (Some (length spre)) (spre @ (name1, f1) # mid) lg)) =
              lg @ trace (map plain (spre @ (name1, f1) # mid))
                @ [Print (newline @ rule50),
                   Print (summary_line (tally (map plain (spre @ (name1, f1) # mid)))
                            (Suc (length spre + length mid))),
                   Print (newline @ newline @ ''Demo interrupted by user'')]
          \<and> (await_at f2 = Some n \<longrightarrow>
               main_of (asyncio_run
                   (deferred_batch (Some (length spre))
                      (spre @ (name1, f1) # mid @ (name2, f2) # post2) lg)) =
                 lg @ trace (map plain (spre @ (name1, f1) # mid))
                   @ Invoke name2 # map OpPrint (take n (prints f2))
                   @ [Print (newline @ newline @ ''Demo interrupted by user'')]))"
proof -
  have "snd (run_batch (pre @ (name, f) # post) lg) = Inl KeyboardInterrupt"
    by (simp add: run_batch_interrupted [OF assms])
  moreover have "invoked (fst (run_batch (pre @ (name, f) # post) lg)) =
           invoked lg @ map fst pre @ [name]"
    by (simp add: run_batch_interrupted [OF assms] invoked_append invoked_trace
        invoked_OpPrint)
  moreover have "printed (main_of (run_batch (pre @ (name, f) # post) lg)) =
           printed lg @ diagnostics pre @ [newline @ newline @ ''Demo interrupted by user'']"
    by (simp add: run_batch_interrupted [OF assms] main_of_def printed_append printed_trace
        printed_OpPrint)
  moreover note main_interrupted [OF assms, of ev name post] deferred_none [of sds lg]
  moreover have "main_of (asyncio_run
                (deferred_batch (Some (length spre)) (spre @ (name1, f1) # mid) lg)) =
              lg @ trace (map plain (spre @ (name1, f1) # mid))
                @ [Print (newline @ rule50),
                   Print (summary_line (tally (map plain (spre @ (name1, f1) # mid)))
                            (Suc (length spre + length mid))),
                   Print (newline @ newline @ ''Demo interrupted by user'')]"
    if "\<forall>d\<in>set (spre @ (name1, f1) # mid). \<not> interrupted (plain d)"
      and "\<forall>d\<in>set mid. await_at (snd d) = None"
    using that by (rule late_signal_completes)
  moreover have "main_of (asyncio_run
                   (deferred_batch (Some (length spre))
                      (spre @ (name1, f1) # mid @ (name2, f2) # post2) lg)) =
                 lg @ trace (map plain (spre @ (name1, f1) # mid))
                   @ Invoke name2 # map OpPrint (take n (prints f2))
                   @ [Print (newline @ newline @ ''Demo interrupted by user'')]"
    if "\<forall>d\<in>set (spre @ (name1, f1) # mid). \<not> interrupted (plain d)"
      and "\<forall>d\<in>set mid. await_at (snd d) = None" and "await_at f2 = Some n"
    using that by (rule late_signal_cancels_next_await)
  ultimately show ?thesis
    by blast
qed

theorem interrupt_ends_the_run_witness:
  "list_all (\<lambda>d. \<not> interrupted d) (take 2 interrupted_batch)
   \<and> outcome \<lparr>prints = [''c''], outcome = Interrupted\<rparr> = Interrupted
   \<and> ready ready_env \<and> simple_ready ready_env
   \<and> snd (run_batch interrupted_batch []) = Inl KeyboardInterrupt
   \<and> invoked (fst (run_batch interrupted_batch [])) = [''A'', ''B'', ''C'']
   \<and> printed (main_of (run_batch interrupted_batch [])) =
       [CHR 0xE2 # CHR 0x9D # CHR 0x8C # '' B demo failed: boom'',
        CHR 0x0A # CHR 0x0A # ''Demo interrupted by user'']
   \<and> invoked (main ready_env interrupted_batch) = [''A'', ''B'', ''C'']
   \<and> filter is_summary (printed (main ready_env interrupted_batch)) = []
   \<and> last (printed (main ready_env interrupted_batch)) =
       CHR 0x0A # CHR 0x0A # ''Demo interrupted by user''
   \<and> invoked (simple_main ready_env interrupted_batch) = [''A'', ''B'', ''C'']
   \<and> filter is_summary (printed (simple_main ready_env interrupted_batch)) = []
   \<and> last (printed (simple_main ready_env interrupted_batch)) =
       CHR 0x0A # CHR 0x0A # ''Demo interrupted by user''
   \<and> main_of (asyncio_run (deferred_batch (Some 1) late_two [])) =
       [Invoke ''A'', OpPrint ''a'', Invoke ''B'', OpPrint ''b'',
        Print (CHR 0x0A # replicate 50 (CHR ''='')),
        Print ''Completed 2/2 demos successfully!'',
        Print (CHR 0x0A # CHR 0x0A # ''Demo interrupted by user'')]
   \<and> main_of (asyncio_run (deferred_batch (Some 1) late_five [])) =
       [Invoke ''A'', OpPrint ''a'', Invoke ''B'', OpPrint ''b'', Invoke ''C'',
        OpPrint ''banner c'', Print (CHR 0x0A # CHR 0x0A # ''Demo interrupted by user'')]"
proof -
  let ?A = "(''A'', \<lparr>prints = [''a''], outcome = Returned True, await_at = Some 0\<rparr>)"
  let ?fB = "\<lparr>prints = [''b''], outcome = Returned True, await_at = Some 0\<rparr>"
  let ?fC = "\<lparr>prints = [''banner c'', ''c''], outcome = Returned True, await_at = Some (1::nat)\<rparr>"
  let ?DE = "[(''D'', \<lparr>prints = [''d''], outcome = Returned True, await_at = Some 0\<rparr>),
              (''E'', \<lparr>prints = [''e''], outcome = Returned True, await_at = Some 0\<rparr>)]"
  have h1: "\<forall>d\<in>set (take 2 interrupted_batch). \<not> interrupted d"
    by (simp add: interrupted_batch_def)
  have h2: "outcome \<lparr>prints = [''c''], outcome = Interrupted\<rparr> = Interrupted"
    by simp
  have eq: "take 2 interrupted_batch @ (''C'', \<lparr>prints = [''c''], outcome = Interrupted\<rparr>)
         # drop 3 interrupted_batch = interrupted_batch"
    by (simp add: interrupted_batch_def)
  have n: "map fst (take 2 interrupted_batch) = [''A'', ''B'']"
    and d: "diagnostics (take 2 interrupted_batch) =
        [CHR 0xE2 # CHR 0x9D # CHR 0x8C # '' B demo failed: boom'']"
    by (simp_all add: interrupted_batch_def failed_line_def cross_mark_def)
  note T = interrupt_ends_the_run [OF h1 h2, of "''C''" "drop 3 interrupted_batch" "[]" ready_env
      _ "[?A]" "''B''" ?fB "[]" ?fC 1 "''C''" ?DE]
  have plain_part: "snd (run_batch interrupted_batch []) = Inl KeyboardInterrupt
   \<and> invoked (fst (run_batch interrupted_batch [])) = [''A'', ''B'', ''C'']
   \<and> printed (main_of (run_batch interrupted_batch [])) =
       [CHR 0xE2 # CHR 0x9D # CHR 0x8C # '' B demo failed: boom'',
        CHR 0x0A # CHR 0x0A # ''Demo interrupted by user'']
   \<and> invoked (main ready_env interrupted_batch) = [''A'', ''B'', ''C'']
   \<and> filter is_summary (printed (main ready_env interrupted_batch)) = []
   \<and> last (printed (main ready_env interrupted_batch)) =
       CHR 0x0A # CHR 0x0A # ''Demo interrupted by user''
   \<and> invoked (simple_main ready_env interrupted_batch) = [''A'', ''B'', ''C'']
   \<and> filter is_summary (printed (simple_main ready_env interrupted_batch)) = []
   \<and> last (printed (simple_main ready_env interrupted_batch)) =
       CHR 0x0A # CHR 0x0A # ''Demo interrupted by user''"
    using T ready_ready_env unfolding eq n d
    by (simp add: interrupt_notice_def newline_def)
  have s1: "\<forall>d\<in>set ([?A] @ (''B'', ?fB) # []). \<not> interrupted (plain d)"
    and s2: "\<forall>d\<in>set ([]::(string \<times> awaiting_demo) list). await_at (snd d) = None"
    and s3: "await_at ?fC = Some 1"
    by simp_all
  from T s1 s2 have two: "main_of (asyncio_run
                (deferred_batch (Some (length [?A])) ([?A] @ (''B'', ?fB) # []) [])) =
              [] @ trace (map plain ([?A] @ (''B'', ?fB) # []))
                @ [Print (newline @ rule50),
                   Print (summary_line (tally (map plain ([?A] @ (''B'', ?fB) # [])))
                            (Suc (length [?A] + length ([]::(string \<times> awaiting_demo) list)))),
                   Print (newline @ newline @ ''Demo interrupted by user'')]"
    by blast
  from T s1 s2 s3 have five: "main_of (asyncio_run
                   (deferred_batch (Some (length [?A]))
                      ([?A] @ (''B'', ?fB) # [] @ (''C'', ?fC) # ?DE) [])) =
                 [] @ trace (map plain ([?A] @ (''B'', ?fB) # []))
                   @ Invoke ''C'' # map OpPrint (take 1 (prints ?fC))
                   @ [Print (newline @ newline @ ''Demo interrupted by user'')]"
    by blast
  have two': "main_of (asyncio_run (deferred_batch (Some 1) late_two [])) =
       [Invoke ''A'', OpPrint ''a'', Invoke ''B'', OpPrint ''b'',
        Print (CHR 0x0A # replicate 50 (CHR ''='')),
        Print ''Completed 2/2 demos successfully!'',
        Print (CHR 0x0A # CHR 0x0A # ''Demo interrupted by user'')]"
    using two by (simp add: late_two_def summary_line_def str_nat.simps newline_def rule50_def)
  have five': "main_of (asyncio_run (deferred_batch (Some 1) late_five [])) =
       [Invoke ''A'', OpPrint ''a'', Invoke ''B'', OpPrint ''b'', Invoke ''C'',
        OpPrint ''banner c'', Print (CHR 0x0A # CHR 0x0A # ''Demo interrupted by user'')]"
    using five by (simp add: late_five_def newline_def)
  show ?thesis
    using h1 h2 ready_ready_env plain_part two' five' by (simp add: list_all_iff)
qed

text \<open>
  C9, as the specification words it, fails. When \<open>demo_hello_world\<close> fails, it returns
  \<open>False\<close>: the runner counts nothing and prints nothing, and the line the demo's handler
  prints does not contain the name "Hello World". The only line with the name is the
  banner, which the demo prints in the same way when it succeeds.
\<close>

theorem false_return_has_no_named_diagnostic:
  "run_loop [(''Hello World'', demo_hello_world (Failed ''boom''))] 0 [] =
     ([Invoke ''Hello World'',
       OpPrint (CHR 0x0A # ''=== Demo 1: Hello World ===''),
       OpPrint (CHR 0xE2 # CHR 0x9D # CHR 0x8C # '' Error: boom'')], Inr 0)
   \<and> printed (fst (run_loop [(''Hello World'', demo_hello_world (Failed ''boom''))] 0 [])) = []
   \<and> \<not> mentions (CHR 0xE2 # CHR 0x9D # CHR 0x8C # '' Error: boom'') ''Hello World''
   \<and> run_loop [(''Hello World'', demo_hello_world (Replied ''hi''))] 0 [] =
     ([Invoke ''Hello World'',
       OpPrint (CHR 0x0A # ''=== Demo 1: Hello World ===''),
       OpPrint ''Claude: hi''], Inr 1)"
  by (simp add: demo_hello_world_def cross_mark_def newline_def)

text \<open>
  C9, amended. For every demo that the run reaches and that raises an exception, the
  runner prints one line made of the cross mark, the demo's name and "demo failed:" with
  the error; the line contains the name and stays in the output whatever the later demos
  do. For a demo that returns \<open>False\<close> the runner prints nothing: the log grows by the
  call and by the lines the demo printed itself. When \<open>demo_hello_world\<close> fails, these
  are its banner, which contains the name, and the handler's line with the error.
\<close>

theorem raised_demo_has_named_diagnostic:
  assumes "snd (run_loop pre 0 lg) = Inr c"
  shows "(outcome f = Raised e \<longrightarrow>
            printed (fst (run_loop (pre @ [(name, f)]) 0 lg)) =
              printed (fst (run_loop pre 0 lg)) @ [cross_mark @ '' '' @ name @ '' demo failed: '' @ e]
          \<and> mentions (cross_mark @ '' '' @ name @ '' demo failed: '' @ e) name
          \<and> cross_mark @ '' '' @ name @ '' demo failed: '' @ e
              \<in> set (printed (fst (run_loop (pre @ (name, f) # post) 0 lg)))
          \<and> snd (run_loop (pre @ [(name, f)]) 0 lg) = Inr c)
       \<and> (outcome f = Returned False \<longrightarrow>
            fst (run_loop (pre @ [(name, f)]) 0 lg) =
              fst (run_loop pre 0 lg) @ Invoke name # map OpPrint (prints f)
          \<and> printed (fst (run_loop (pre @ [(name, f)]) 0 lg)) = printed (fst (run_loop pre 0 lg))
          \<and> snd (run_loop (pre @ [(name, f)]) 0 lg) = Inr c)
       \<and> demo_hello_world (Failed e1) =
           \<lparr>prints = [newline @ ''=== Demo 1: Hello World ==='', cross_mark @ '' Error: '' @ e1],
            outcome = Returned False\<rparr>
       \<and> mentions (newline @ ''=== Demo 1: Hello World ==='') ''Hello World''"
proof -
  have hello: "demo_hello_world (Failed e1) =
           \<lparr>prints = [newline @ ''=== Demo 1: Hello World ==='', cross_mark @ '' Error: '' @ e1],
            outcome = Returned False\<rparr>
       \<and> mentions (newline @ ''=== Demo 1: Hello World ==='') ''Hello World''"
    by (simp add: demo_hello_world_def newline_def)
  obtain lg1 where pre: "run_loop pre 0 lg = (lg1, Inr c)"
    using assms by (cases "run_loop pre 0 lg") simp
  have raised: "printed (fst (run_loop (pre @ [(name, f)]) 0 lg)) =
              printed (fst (run_loop pre 0 lg)) @ [cross_mark @ '' '' @ name @ '' demo failed: '' @ e]
          \<and> mentions (cross_mark @ '' '' @ name @ '' demo failed: '' @ e) name
          \<and> cross_mark @ '' '' @ name @ '' demo failed: '' @ e
              \<in> set (printed (fst (run_loop (pre @ (name, f) # post) 0 lg)))
          \<and> snd (run_loop (pre @ [(name, f)]) 0 lg) = Inr c"
    if r: "outcome f = Raised e"
  proof -
    have one: "run_loop (pre @ [(name, f)]) 0 lg =
        (lg1 @ Invoke name # map OpPrint (prints f)
           @ [Print (cross_mark @ '' '' @ name @ '' demo failed: '' @ e)], Inr c)"
      using r by (simp add: run_loop_append pre failed_line_def)
    obtain ext where "fst (run_loop ((pre @ [(name, f)]) @ post) 0 lg) =
        fst (run_loop (pre @ [(name, f)]) 0 lg) @ ext"
      using run_loop_append_log by blast
    then have "cross_mark @ '' '' @ name @ '' demo failed: '' @ e
              \<in> set (printed (fst (run_loop (pre @ (name, f) # post) 0 lg)))"
      by (simp add: one printed_append printed_OpPrint)
    moreover have "mentions (cross_mark @ '' '' @ name @ '' demo failed: '' @ e) name"
      using mentions_failed_line [of name e] by (simp add: failed_line_def)
    ultimately show ?thesis
      by (simp add: one pre printed_append printed_OpPrint)
  qed
  have returned: "fst (run_loop (pre @ [(name, f)]) 0 lg) =
              fst (run_loop pre 0 lg) @ Invoke name # map OpPrint (prints f)
          \<and> printed (fst (run_loop (pre @ [(name, f)]) 0 lg)) = printed (fst (run_loop pre 0 lg))
          \<and> snd (run_loop (pre @ [(name, f)]) 0 lg) = Inr c"
    if "outcome f = Returned False"
    using that by (simp add: run_loop_append pre printed_append printed_OpPrint)
  show ?thesis
    using raised returned hello by blast
qed

theorem raised_demo_has_named_diagnostic_witness:
  "snd (run_loop [(''A'', \<lparr>prints = [''a''], outcome = Returned True\<rparr>)] 0 []) = Inr 1
   \<and> printed (fst (run_loop [(''A'', \<lparr>prints = [''a''], outcome = Returned True\<rparr>),
                            (''B'', \<lparr>prints = [], outcome = Raised ''boom''\<rparr>)] 0 [])) =
       [CHR 0xE2 # CHR 0x9D # CHR 0x8C # '' B demo failed: boom'']
   \<and> mentions (CHR 0xE2 # CHR 0x9D # CHR 0x8C # '' B demo failed: boom'') ''B''
   \<and> CHR 0xE2 # CHR 0x9D # CHR 0x8C # '' B demo failed: boom''
       \<in> set (printed (fst (run_loop
           [(''A'', \<lparr>prints = [''a''], outcome = Returned True\<rparr>),
            (''B'', \<lparr>prints = [], outcome = Raised ''boom''\<rparr>),
            (''C'', \<lparr>prints = [''c''], outcome = Interrupted\<rparr>)] 0 [])))"
proof -
  let ?A = "(''A'', \<lparr>prints = [''a''], outcome = Returned True\<rparr>)"
  let ?fB = "\<lparr>prints = [], outcome = Raised ''boom''\<rparr>"
  let ?C = "(''C'', \<lparr>prints = [''c''], outcome = Interrupted\<rparr>)"
  have h: "snd (run_loop [?A] 0 []) = Inr 1"
    by simp
  have o: "outcome ?fB = Raised ''boom''"
    by simp
  note T = raised_demo_has_named_diagnostic [OF h, of ?fB "''boom''" "''B''" "[?C]"]
  from T o have T1: "printed (fst (run_loop ([?A] @ [(''B'', ?fB)]) 0 [])) =
      printed (fst (run_loop [?A] 0 [])) @ [cross_mark @ '' '' @ ''B'' @ '' demo failed: '' @ ''boom'']"
    and T2: "mentions (cross_mark @ '' '' @ ''B'' @ '' demo failed: '' @ ''boom'') ''B''"
    and T3: "cross_mark @ '' '' @ ''B'' @ '' demo failed: '' @ ''boom''
      \<in> set (printed (fst (run_loop ([?A] @ (''B'', ?fB) # [?C]) 0 [])))"
    by blast+
  have c: "cross_mark @ '' '' @ ''B'' @ '' demo failed: '' @ ''boom'' =
      CHR 0xE2 # CHR 0x9D # CHR 0x8C # '' B demo failed: boom''"
    by (simp add: cross_mark_def)
  have p: "printed (fst (run_loop [?A] 0 [])) = []"
    by simp
  have a: "[?A] @ [(''B'', ?fB)] = [?A, (''B'', ?fB)]" "[?A] @ (''B'', ?fB) # [?C] = [?A, (''B'', ?fB), ?C]"
    by simp_all
  show ?thesis
    using h T1 T2 T3 unfolding c p a append_Nil by blast
qed

text \<open>
  C10. When no API key is found, \<open>run_all_demos\<close> returns before the list of demos: no
  demo is called and no summary line is printed, and since it returns normally \<open>main\<close>
  prints no interruption notice either. In claudeCodeDemo.py this is reached once
  \<open>install_requirements\<close> has returned.
\<close>

theorem missing_key_returns_before_the_demos:
  assumes "\<not> key_ok (api_key ev)"
  shows "(sdk_ok (sdk ev) \<longrightarrow>
            snd (run_all_demos ev ds) = Inr ()
          \<and> main ev ds = fst (run_all_demos ev ds)
          \<and> invoked (main ev ds) = []
          \<and> filter is_summary (printed (main ev ds)) = []
          \<and> interrupt_notice \<notin> set (printed (main ev ds)))
       \<and> simple_run_all_demos ev ds =
           ([Print ''Simple Claude API Demo Starting...'', Print rule50,
             Print (cross_mark @ '' No API key found in .env file''),
             Print ''Please set ANTHROPIC_API_KEY in .env''], Inr ())
       \<and> simple_main ev ds = fst (simple_run_all_demos ev ds)
       \<and> invoked (simple_main ev ds) = []
       \<and> filter is_summary (printed (simple_main ev ds)) = []
       \<and> interrupt_notice \<notin> set (printed (simple_main ev ds))"
proof -
  have key: "api_key ev = None \<or> api_key ev = Some []"
    using assms by (cases "api_key ev") simp_all
  have simple: "simple_run_all_demos ev ds =
           ([Print ''Simple Claude API Demo Starting...'', Print rule50,
             Print (cross_mark @ '' No API key found in .env file''),
             Print ''Please set ANTHROPIC_API_KEY in .env''], Inr ())"
    using key by (auto simp: simple_run_all_demos_def setup_api_key_def)
  have full: "snd (run_all_demos ev ds) = Inr ()
          \<and> main ev ds = fst (run_all_demos ev ds)
          \<and> invoked (main ev ds) = []
          \<and> filter is_summary (printed (main ev ds)) = []
          \<and> interrupt_notice \<notin> set (printed (main ev ds))" if "sdk_ok (sdk ev)"
    using that key
    by (cases "sdk ev")
      (auto simp: main_def main_of_def run_all_demos_def install_requirements_def
        setup_api_key_def is_summary_def check_mark_def cross_mark_def rule50_head
        interrupt_notice_def newline_def)
  have rest: "simple_main ev ds = fst (simple_run_all_demos ev ds)
       \<and> invoked (simple_main ev ds) = []
       \<and> filter is_summary (printed (simple_main ev ds)) = []
       \<and> interrupt_notice \<notin> set (printed (simple_main ev ds))"
    by (simp add: simple simple_main_def main_of_def is_summary_def cross_mark_def rule50_head
        interrupt_notice_def newline_def)
  show ?thesis
    using full simple rest by blast
qed

theorem missing_key_returns_before_the_demos_witness:
  "\<not> key_ok (api_key keyless_env) \<and> sdk_ok (sdk keyless_env)
   \<and> main keyless_env mixed_batch =
       [Print ''Claude API Demo Starting...'', Print rule50,
        Print (check_mark @ '' Anthropic SDK available''),
        Print (cross_mark @ '' No API key found in .env file''),
        Print ''Please set ANTHROPIC_API_KEY in ib_invoice_ops/.env'']
   \<and> invoked (main keyless_env mixed_batch) = []
   \<and> filter is_summary (printed (main keyless_env mixed_batch)) = []
   \<and> invoked (simple_main keyless_env mixed_batch) = []
   \<and> filter is_summary (printed (simple_main keyless_env mixed_batch)) = []"
proof -
  have h: "\<not> key_ok (api_key keyless_env)" and s: "sdk_ok (sdk keyless_env)"
    by (simp_all add: keyless_env_def)
  have m: "fst (run_all_demos keyless_env mixed_batch) =
       [Print ''Claude API Demo Starting...'', Print rule50,
        Print (check_mark @ '' Anthropic SDK available''),
        Print (cross_mark @ '' No API key found in .env file''),
        Print ''Please set ANTHROPIC_API_KEY in ib_invoice_ops/.env'']"
    by (simp add: keyless_env_def run_all_demos_def install_requirements_def setup_api_key_def)
  show ?thesis
    using h s missing_key_returns_before_the_demos [OF h, of mixed_batch]
    by (simp add: m is_summary_def check_mark_def cross_mark_def rule50_head)
qed

end
